theory Spec2Isabelle
  imports Complex_Main
begin

section \<open>PollReader: data model\<close>

text \<open>
  The program is the Python module \<^verbatim>\<open>PollReader.py\<close>. An object of class
  \<^verbatim>\<open>PollReader\<close> holds the lines of the CSV file (\<^verbatim>\<open>raw_data\<close>) and a
  dictionary \<^verbatim>\<open>data_dict\<close> with six fixed keys, each bound to a list. The six
  keys never change, so the dictionary is a record of six lists; the field names
  are the keys with the blank replaced by an underscore.

  The functions \<^verbatim>\<open>build_data_dict\<close>, \<^verbatim>\<open>highest_polling_candidate\<close>,
  \<^verbatim>\<open>likely_voter_polling_average\<close> and \<^verbatim>\<open>polling_history_change\<close> take the
  object as their parameter \<^verbatim>\<open>self\<close>; each is modelled as a function of the
  object.

  Python strings are lists of characters; a \<^typ>\<open>char\<close> is read as the code
  point below 256 that it numbers. Python floats are modelled as exact rationals:
  rounding, infinities and NaN are outside this model.
\<close>

record poll_table =
  month :: "string list"
  date :: "int list"
  sample :: "int list"
  sample_type :: "string list"
  Harris_result :: "rat list"
  Trump_result :: "rat list"

record poll_reader =
  raw_data :: "string list"
  data_dict :: poll_table

text \<open>
  The exceptions. The first three are the built-in exceptions that the code can
  raise; the last three are the error kinds that the specification names. No
  statement of the program constructs any of the last three.
\<close>

datatype exn =
  IndexError | ValueError | ZeroDivisionError
  | ParseError | EmptyDataError | InsufficientDataError

text \<open>
  A method call either raises or returns, and leaves the object in some state:
  its model returns the pair of the outcome (\<open>Inl\<close> the exception raised,
  \<open>Inr\<close> the value returned) and the object after the call.
\<close>

type_synonym 'a outcome = "(exn + 'a) \<times> poll_reader"

subsection \<open>The constructor\<close>

text \<open>
  \<^verbatim>\<open>__init__\<close> reads the lines of the file into \<^verbatim>\<open>raw_data\<close> and binds each
  key to the empty list. Opening and reading the file is not modelled: the
  constructor is given the list that \<^verbatim>\<open>readlines()\<close> returned.
\<close>

definition empty_table :: poll_table where
  "empty_table = \<lparr>month = [], date = [], sample = [], sample_type = [],
     Harris_result = [], Trump_result = []\<rparr>"

definition init :: "string list \<Rightarrow> poll_reader" where
  "init lines = \<lparr>raw_data = lines, data_dict = empty_table\<rparr>"

section \<open>Python primitives used by the code\<close>

text \<open>
  \<^verbatim>\<open>str.strip()\<close> and \<^verbatim>\<open>str.split()\<close> with no argument treat as white space
  the characters for which \<^verbatim>\<open>str.isspace\<close> holds; below code point 256 these are
  the following twelve.
\<close>

definition isspace :: "char \<Rightarrow> bool" where
  "isspace c = (c \<in> set [CHR 0x09, CHR 0x0A, CHR 0x0B, CHR 0x0C, CHR 0x0D,
     CHR 0x1C, CHR 0x1D, CHR 0x1E, CHR 0x1F, CHR 0x20, CHR 0x85, CHR 0xA0])"

definition strip :: "string \<Rightarrow> string" where
  "strip s = rev (dropWhile isspace (rev (dropWhile isspace s)))"

text \<open>\<^verbatim>\<open>s.split(',')\<close>: the pieces between the separators, empty ones included;
  the result is never empty.\<close>

fun split_on :: "char \<Rightarrow> string \<Rightarrow> string \<Rightarrow> string list" where
  "split_on c acc [] = [rev acc]"
| "split_on c acc (x # xs) =
     (if x = c then rev acc # split_on c [] xs else split_on c (x # acc) xs)"

definition split_comma :: "string \<Rightarrow> string list" where
  "split_comma s = split_on (CHR '','') [] s"

text \<open>\<^verbatim>\<open>s.split()\<close>: the maximal runs of characters that are not white space.\<close>

fun split_ws :: "string \<Rightarrow> string \<Rightarrow> string list" where
  "split_ws acc [] = (if acc = [] then [] else [rev acc])"
| "split_ws acc (x # xs) =
     (if isspace x
      then (if acc = [] then split_ws [] xs else rev acc # split_ws [] xs)
      else split_ws (x # acc) xs)"

definition split_space :: "string \<Rightarrow> string list" where
  "split_space s = split_ws [] s"

text \<open>\<^verbatim>\<open>xs[i]\<close>: a negative index counts from the end, and an index out of
  range raises IndexError.\<close>

definition getitem :: "'a list \<Rightarrow> int \<Rightarrow> exn + 'a" where
  "getitem xs i =
     (let n = int (length xs); j = (if i < 0 then i + n else i)
      in if j < 0 \<or> n \<le> j then Inl IndexError else Inr (xs ! nat j))"

text \<open>\<^verbatim>\<open>xs[slice(a, b)]\<close>: both bounds are clamped to the list, a negative bound
  counting from the end; slicing never raises.\<close>

definition slice_bound :: "int \<Rightarrow> int \<Rightarrow> int" where
  "slice_bound n i = (if i < 0 then max (i + n) 0 else min i n)"

definition getslice :: "'a list \<Rightarrow> int \<Rightarrow> int \<Rightarrow> 'a list" where
  "getslice xs a b =
     (let n = int (length xs); lo = slice_bound n a; hi = slice_bound n b
      in take (nat (hi - lo)) (drop (nat lo) xs))"

text \<open>\<^verbatim>\<open>int(s)\<close> and \<^verbatim>\<open>float(s)\<close> are built-ins of the language, not code of
  the program: the model takes them as parameters \<open>pint\<close> and \<open>pfloat\<close>, which
  return \<open>None\<close> where the built-in raises ValueError.\<close>

definition convert :: "(string \<Rightarrow> 'a option) \<Rightarrow> string \<Rightarrow> exn + 'a" where
  "convert p s = (case p s of None \<Rightarrow> Inl ValueError | Some v \<Rightarrow> Inr v)"

text \<open>\<^verbatim>\<open>a / b\<close> on numbers raises ZeroDivisionError when \<open>b\<close> is zero.\<close>

definition truediv :: "rat \<Rightarrow> rat \<Rightarrow> exn + rat" where
  "truediv a b = (if b = 0 then Inl ZeroDivisionError else Inr (a / b))"

text \<open>\<^verbatim>\<open>max(xs)\<close> raises ValueError on the empty list; otherwise it scans the
  list and keeps the first greatest element.\<close>

fun py_max :: "rat list \<Rightarrow> exn + rat" where
  "py_max [] = Inl ValueError"
| "py_max (x # xs) = Inr (foldl (\<lambda>m y. if m < y then y else m) x xs)"

text \<open>Sequencing of two steps of which the first may raise.\<close>

definition bind :: "exn + 'a \<Rightarrow> ('a \<Rightarrow> exn + 'b) \<Rightarrow> exn + 'b" where
  "bind m f = (case m of Inl e \<Rightarrow> Inl e | Inr v \<Rightarrow> f v)"

subsection \<open>Fixed-point formatting\<close>

text \<open>
  \<^verbatim>\<open>f"{x:.1f}"\<close> prints the decimal with one digit after the point that is
  nearest to \<open>x\<close>, a tie going to the even last digit, with a minus sign for a
  negative \<open>x\<close>.
\<close>

definition round_half_even :: "rat \<Rightarrow> int" where
  "round_half_even x =
     (let f = \<lfloor>x\<rfloor>; r = x - of_int f
      in if r < 1 / 2 then f else if 1 / 2 < r then f + 1
         else if even f then f else f + 1)"

definition digit_char :: "nat \<Rightarrow> char" where
  "digit_char d = ''0123456789'' ! d"

fun show_nat :: "nat \<Rightarrow> string" where
  "show_nat n =
     (if n < 10 then [digit_char n] else show_nat (n div 10) @ [digit_char (n mod 10)])"

declare show_nat.simps [simp del]

definition format_1f :: "rat \<Rightarrow> string" where
  "format_1f x =
     (let q = nat (round_half_even (\<bar>x\<bar> * 10))
      in (if x < 0 then ''-'' else '''') @ show_nat (q div 10) @ ''.''
           @ [digit_char (q mod 10)])"

section \<open>build_data_dict\<close>

text \<open>
  The body of the loop, for one line that is already stripped and not empty.
  The steps are in the order of the source, so that the first one that raises
  decides the exception. The last step is the six appends, which come after every
  step that can raise.
\<close>

definition append_row ::
  "string \<times> int \<times> int \<times> string \<times> rat \<times> rat \<Rightarrow> poll_table \<Rightarrow> poll_table" where
  "append_row r d =
     (case r of (m, dt, sz, st, h, t) \<Rightarrow>
        \<lparr>month = month d @ [m], date = date d @ [dt], sample = sample d @ [sz],
         sample_type = sample_type d @ [st],
         Harris_result = Harris_result d @ [h], Trump_result = Trump_result d @ [t]\<rparr>)"

definition parse_row ::
  "(string \<Rightarrow> int option) \<Rightarrow> (string \<Rightarrow> rat option) \<Rightarrow> string
     \<Rightarrow> exn + (string \<times> int \<times> int \<times> string \<times> rat \<times> rat)" where
  "parse_row pint pfloat line =
     (let parts = map strip (split_comma line) in
      bind (getitem parts 0) (\<lambda>m.
      bind (getitem parts 1) (\<lambda>p1.
      bind (convert pint p1) (\<lambda>dt.
      bind (getitem parts 2) (\<lambda>sample_field.
      let sample_bits = split_space sample_field in
      bind (getitem sample_bits 0) (\<lambda>b0.
      bind (convert pint b0) (\<lambda>sz.
      bind (getitem sample_bits (- 1)) (\<lambda>st.
      bind (getitem parts 3) (\<lambda>p3.
      bind (convert pfloat p3) (\<lambda>h.
      bind (getitem parts 4) (\<lambda>p4.
      bind (convert pfloat p4) (\<lambda>t.
      Inr (m, dt, sz, st, h, t)))))))))))))"

fun build_loop ::
  "(string \<Rightarrow> int option) \<Rightarrow> (string \<Rightarrow> rat option) \<Rightarrow> string list \<Rightarrow> poll_table
     \<Rightarrow> (exn + unit) \<times> poll_table" where
  "build_loop pint pfloat [] d = (Inr (), d)"
| "build_loop pint pfloat (l # ls) d =
     (let line = strip l in
      if line = [] then build_loop pint pfloat ls d
      else (case parse_row pint pfloat line of
              Inl e \<Rightarrow> (Inl e, d)
            | Inr r \<Rightarrow> build_loop pint pfloat ls (append_row r d)))"

definition build_data_dict ::
  "(string \<Rightarrow> int option) \<Rightarrow> (string \<Rightarrow> rat option) \<Rightarrow> poll_reader \<Rightarrow> unit outcome" where
  "build_data_dict pint pfloat s =
     (case build_loop pint pfloat (drop 1 (raw_data s)) (data_dict s) of
        (r, d) \<Rightarrow> (r, s\<lparr>data_dict := d\<rparr>))"

section \<open>The three queries\<close>

definition highest_polling_candidate :: "poll_reader \<Rightarrow> string outcome" where
  "highest_polling_candidate s =
     (bind (py_max (Harris_result (data_dict s))) (\<lambda>h_max.
      bind (py_max (Trump_result (data_dict s))) (\<lambda>t_max.
      if t_max < h_max then Inr (''Harris '' @ format_1f (h_max * 100) @ ''%'')
      else if h_max < t_max then Inr (''Trump '' @ format_1f (t_max * 100) @ ''%'')
      else Inr (''EVEN '' @ format_1f (h_max * 100) @ ''%''))), s)"

text \<open>A list comprehension \<^verbatim>\<open>[xs[i] for i in idx]\<close> raises at the first index out
  of range.\<close>

fun getitems :: "'a list \<Rightarrow> nat list \<Rightarrow> exn + 'a list" where
  "getitems xs [] = Inr []"
| "getitems xs (i # is) =
     bind (getitem xs (int i)) (\<lambda>v. bind (getitems xs is) (\<lambda>vs. Inr (v # vs)))"

definition lv_indices :: "string list \<Rightarrow> nat list" where
  "lv_indices sts = map fst (filter (\<lambda>(i, st). st = ''LV'') (enumerate 0 sts))"

definition guarded_avg :: "rat list \<Rightarrow> exn + rat" where
  "guarded_avg vals =
     (if vals \<noteq> [] then truediv (sum_list vals) (of_nat (length vals)) else Inr 0)"

definition likely_voter_polling_average :: "poll_reader \<Rightarrow> (rat \<times> rat) outcome" where
  "likely_voter_polling_average s =
     (let lv_idx = lv_indices (sample_type (data_dict s)) in
      bind (getitems (Harris_result (data_dict s)) lv_idx) (\<lambda>h_vals.
      bind (getitems (Trump_result (data_dict s)) lv_idx) (\<lambda>t_vals.
      bind (guarded_avg h_vals) (\<lambda>h_avg.
      bind (guarded_avg t_vals) (\<lambda>t_avg.
      Inr (h_avg, t_avg))))), s)"

definition slice_avg :: "rat list \<Rightarrow> int \<times> int \<Rightarrow> exn + rat" where
  "slice_avg xs sl =
     truediv (sum_list (getslice xs (fst sl) (snd sl)))
       (of_nat (length (getslice xs (fst sl) (snd sl))))"

text \<open>The two slice objects that the \<^verbatim>\<open>if\<close> statement of
  \<^verbatim>\<open>polling_history_change\<close> binds, as pairs of bounds, for \<open>n\<close> rows.\<close>

definition history_slices :: "int \<Rightarrow> (int \<times> int) \<times> (int \<times> int)" where
  "history_slices n =
     (if 60 \<le> n then ((0, 30), (n - 30, n))
      else (let mid = n div 2 in ((0, mid), (n - mid, n))))"

definition polling_history_change :: "poll_reader \<Rightarrow> (rat \<times> rat) outcome" where
  "polling_history_change s =
     (let h = Harris_result (data_dict s);
          t = Trump_result (data_dict s);
          n = int (length h);
          (latest_slice, earliest_slice) = history_slices n
      in bind (slice_avg h latest_slice) (\<lambda>h_latest.
         bind (slice_avg t latest_slice) (\<lambda>t_latest.
         bind (slice_avg h earliest_slice) (\<lambda>h_earliest.
         bind (slice_avg t earliest_slice) (\<lambda>t_earliest.
         Inr (h_latest - h_earliest, t_latest - t_earliest))))), s)"

section \<open>Plain decimal numerals\<close>

text \<open>
  Two concrete readers for the parameters \<open>pint\<close> and \<open>pfloat\<close>, used where a
  statement is evaluated on a concrete file. They accept the numerals that the
  data file contains, a non-empty run of decimal digits and, for \<open>dec_float\<close>,
  an optional point followed by such a run, which \<^verbatim>\<open>int\<close> and \<^verbatim>\<open>float\<close>
  accept too, and return the number that the numeral denotes. The general
  theorems hold for every pair of readers.
\<close>

definition isdigit :: "char \<Rightarrow> bool" where
  "isdigit c = (c \<in> set ''0123456789'')"

definition dec_nat :: "string \<Rightarrow> nat option" where
  "dec_nat s =
     (if s \<noteq> [] \<and> list_all isdigit s
      then Some (foldl (\<lambda>a c. 10 * a + (of_char c - 48)) 0 s) else None)"

definition dec_int :: "string \<Rightarrow> int option" where
  "dec_int s = map_option int (dec_nat s)"

definition dec_float :: "string \<Rightarrow> rat option" where
  "dec_float s =
     (let a = takeWhile (\<lambda>c. c \<noteq> CHR ''.'') s; b = dropWhile (\<lambda>c. c \<noteq> CHR ''.'') s
      in case b of
           [] \<Rightarrow> map_option of_nat (dec_nat a)
         | _ # f \<Rightarrow>
             (case (dec_nat a, dec_nat f) of
                (Some x, Some y) \<Rightarrow> Some (of_nat x + of_nat y / 10 ^ length f)
              | _ \<Rightarrow> None))"

section \<open>Notions of the specification\<close>

text \<open>
  The specification speaks of rows by index. A window is a list of row indices,
  and the mean of a column over a window is the sum of its entries at these
  indices divided by their number.
\<close>

definition mean_at :: "rat list \<Rightarrow> nat list \<Rightarrow> rat" where
  "mean_at xs w = sum_list (map (\<lambda>i. xs ! i) w) / of_nat (length w)"

text \<open>The windows of the history change, in the words of the specification: with
  at least 60 rows the rows \<open>0..29\<close> and \<open>n-30..n-1\<close>, otherwise the first and
  the last \<open>n // 2\<close> rows.\<close>

definition latest_window :: "nat \<Rightarrow> nat list" where
  "latest_window n = (if 60 \<le> n then [0..<30] else [0..<n div 2])"

definition earliest_window :: "nat \<Rightarrow> nat list" where
  "earliest_window n = (if 60 \<le> n then [n - 30..<n] else [n - n div 2..<n])"

text \<open>The rows of likely voters: the indices at which the sample type is the
  string \<^verbatim>\<open>LV\<close>.\<close>

definition lv_rows :: "string list \<Rightarrow> nat list" where
  "lv_rows sts = filter (\<lambda>i. sts ! i = ''LV'') [0..<length sts]"

text \<open>The data lines of a file body: its lines stripped, the blank ones left
  out, in the order of the file.\<close>

definition data_lines :: "string list \<Rightarrow> string list" where
  "data_lines ls = filter (\<lambda>l. l \<noteq> []) (map strip ls)"

definition append_rows ::
  "(string \<times> int \<times> int \<times> string \<times> rat \<times> rat) list \<Rightarrow> poll_table \<Rightarrow> poll_table" where
  "append_rows rows d = foldl (\<lambda>d r. append_row r d) d rows"

text \<open>
  A stripped line is malformed when it has fewer than five comma-separated
  fields, or its date does not convert, or its sample field has no first token
  that converts, or its Harris or its Trump field does not convert.
\<close>

definition malformed ::
  "(string \<Rightarrow> int option) \<Rightarrow> (string \<Rightarrow> rat option) \<Rightarrow> string \<Rightarrow> bool" where
  "malformed pint pfloat line =
     (let parts = map strip (split_comma line) in
      length parts < 5 \<or> pint (parts ! 1) = None
      \<or> (case split_space (parts ! 2) of [] \<Rightarrow> True | b # _ \<Rightarrow> pint b = None)
      \<or> pfloat (parts ! 3) = None \<or> pfloat (parts ! 4) = None)"



text \<open>Any sequence of queries on one object: each query is called on the object
  that the one before it left, whether that one raised or returned, and the
  outcomes are collected.\<close>

datatype query = Highest | LikelyVoter | HistoryChange

datatype answer = Text "exn + string" | Numbers "exn + rat \<times> rat"

fun run_query :: "query \<Rightarrow> poll_reader \<Rightarrow> answer \<times> poll_reader" where
  "run_query Highest s =
     (case highest_polling_candidate s of (r, s') \<Rightarrow> (Text r, s'))"
| "run_query LikelyVoter s =
     (case likely_voter_polling_average s of (r, s') \<Rightarrow> (Numbers r, s'))"
| "run_query HistoryChange s =
     (case polling_history_change s of (r, s') \<Rightarrow> (Numbers r, s'))"

fun run_queries :: "query list \<Rightarrow> poll_reader \<Rightarrow> answer list \<times> poll_reader" where
  "run_queries [] s = ([], s)"
| "run_queries (q # qs) s =
     (case run_query q s of (a, s') \<Rightarrow>
        (case run_queries qs s' of (as, s'') \<Rightarrow> (a # as, s'')))"

section \<open>Example tables\<close>

definition three_rows :: poll_reader where
  "three_rows =
     \<lparr>raw_data = [],
      data_dict = \<lparr>month = [''Oct'', ''Oct'', ''Sep''], date = [28, 27, 30],
        sample = [1880, 900, 1000], sample_type = [''LV'', ''lv'', ''LV''],
        Harris_result = [1 / 2, 57 / 100, 1 / 4],
        Trump_result = [1 / 2, 2 / 5, 3 / 10]\<rparr>\<rparr>"

definition one_row :: poll_reader where
  "one_row =
     \<lparr>raw_data = [],
      data_dict = \<lparr>month = [''Oct''], date = [28], sample = [1880],
        sample_type = [''LV''], Harris_result = [49 / 100], Trump_result = [46 / 100]\<rparr>\<rparr>"

definition flat_rows :: poll_reader where
  "flat_rows =
     \<lparr>raw_data = [],
      data_dict = \<lparr>month = [''Oct'', ''Oct'', ''Sep''], date = [28, 27, 30],
        sample = [1880, 900, 1000], sample_type = [''LV'', ''A'', ''RV''],
        Harris_result = [1 / 2, 1 / 2, 1 / 2],
        Trump_result = [2 / 5, 2 / 5, 2 / 5]\<rparr>\<rparr>"


definition header :: string where
  "header = ''month,date,sample,Harris result,Trump result\<newline>''"

definition two_polls_file :: "string list" where
  "two_polls_file =
     [header, ''October,28,1880 LV,0.49,0.46\<newline>'', ''\<newline>'',
      ''October,27, 900 A B RV ,0.5,0.57\<newline>'']"

definition extra_field_file :: "string list" where
  "extra_field_file = [header, ''October,28,1880 LV,0.49,0.46,extra\<newline>'']"

definition short_line_file :: "string list" where
  "short_line_file =
     [header, ''October,28,1880 LV,0.49,0.46\<newline>'', ''October,27,900 RV\<newline>'',
      ''October,26,800 A,0.5,0.5\<newline>'']"

definition two_polls_table :: poll_table where
  "two_polls_table =
     \<lparr>month = [''October'', ''October''], date = [28, 27], sample = [1880, 900],
      sample_type = [''LV'', ''RV''], Harris_result = [49 / 100, 1 / 2],
      Trump_result = [46 / 100, 57 / 100]\<rparr>"

definition first_poll_table :: poll_table where
  "first_poll_table =
     \<lparr>month = [''October''], date = [28], sample = [1880], sample_type = [''LV''],
      Harris_result = [49 / 100], Trump_result = [46 / 100]\<rparr>"

section \<open>Facts about the primitives\<close>

lemma bind_Inl: "bind (Inl e) f = Inl e"
  by (simp add: bind_def)

lemma bind_Inr: "bind (Inr v) f = f v"
  by (simp add: bind_def)

lemma getitem_nat:
  "getitem xs (int i) = (if i < length xs then Inr (xs ! i) else Inl IndexError)"
  by (simp add: getitem_def Let_def)

lemma map_nth_upt: "b \<le> length xs \<Longrightarrow> map ((!) xs) [a..<b] = take (b - a) (drop a xs)"
  by (rule nth_equalityI) auto

lemma getslice_nat:
  assumes "a \<le> b" and "b \<le> length xs"
  shows "getslice xs (int a) (int b) = map ((!) xs) [a..<b]"
proof -
  have "slice_bound (int (length xs)) (int a) = int a"
    and "slice_bound (int (length xs)) (int b) = int b"
    using assms by (simp_all add: slice_bound_def)
  then have "getslice xs (int a) (int b) = take (b - a) (drop a xs)"
    using assms by (simp add: getslice_def Let_def nat_diff_distrib')
  then show ?thesis
    using assms by (simp add: map_nth_upt)
qed

section \<open>polling_history_change: the windows and the result\<close>

lemma slice_avg_nat:
  assumes "a \<le> b" and "b \<le> length xs"
  shows "slice_avg xs (int a, int b) =
    (if a = b then Inl ZeroDivisionError else Inr (mean_at xs [a..<b]))"
  using assms by (simp add: slice_avg_def getslice_nat truediv_def mean_at_def)

lemma slice_avg_window:
  assumes "a \<le> b" and "b \<le> length xs" and "i = int a" and "j = int b"
  shows "slice_avg xs (i, j) =
    (if a = b then Inl ZeroDivisionError else Inr (mean_at xs [a..<b]))"
  using assms slice_avg_nat [of a b xs] by simp

lemma history_change_short:
  assumes "length (Harris_result (data_dict s)) \<le> 1"
  shows "fst (polling_history_change s) = Inl ZeroDivisionError"
proof -
  define h where "h = Harris_result (data_dict s)"
  have "int (length h) div 2 = 0"
    using assms by (simp add: h_def)
  moreover have "slice_avg h (0, 0) = Inl ZeroDivisionError"
    using slice_avg_window [of 0 0 h 0 0] by simp
  ultimately show ?thesis
    using assms unfolding polling_history_change_def history_slices_def Let_def
    by (simp add: h_def [symmetric] bind_Inl)
qed

lemma history_change_eq:
  assumes eq: "length (Trump_result (data_dict s)) = length (Harris_result (data_dict s))"
  shows "fst (polling_history_change s) =
    (let h = Harris_result (data_dict s); t = Trump_result (data_dict s); n = length h
     in if n \<le> 1 then Inl ZeroDivisionError
        else Inr (mean_at h (latest_window n) - mean_at h (earliest_window n),
                  mean_at t (latest_window n) - mean_at t (earliest_window n)))"
proof -
  define h where "h = Harris_result (data_dict s)"
  define t where "t = Trump_result (data_dict s)"
  define n where "n = length h"
  have len: "length h = n" "length t = n"
    using eq by (simp_all add: h_def t_def n_def)
  consider "n \<le> 1" | "2 \<le> n" "n < 60" | "60 \<le> n"
    by linarith
  then show ?thesis
  proof cases
    case 1
    then show ?thesis
      using history_change_short [of s] by (simp add: h_def n_def)
  next
    case 2
    have lat: "slice_avg xs (0, int n div 2) = Inr (mean_at xs [0..<n div 2])"
      if "length xs = n" for xs
    proof -
      have "slice_avg xs (0, int n div 2) =
          (if 0 = n div 2 then Inl ZeroDivisionError else Inr (mean_at xs [0..<n div 2]))"
        by (rule slice_avg_window) (use that in \<open>simp_all add: zdiv_int\<close>)
      with 2 show ?thesis by simp
    qed
    have ear: "slice_avg xs (int n - int n div 2, int n) = Inr (mean_at xs [n - n div 2..<n])"
      if "length xs = n" for xs
    proof -
      have "slice_avg xs (int n - int n div 2, int n) =
          (if n - n div 2 = n then Inl ZeroDivisionError
           else Inr (mean_at xs [n - n div 2..<n]))"
        by (rule slice_avg_window) (use that in \<open>simp_all add: zdiv_int of_nat_diff\<close>)
      with 2 show ?thesis by simp
    qed
    from 2 show ?thesis
      unfolding polling_history_change_def history_slices_def Let_def
      by (simp add: h_def [symmetric] t_def [symmetric] n_def [symmetric] len lat ear
          bind_Inr latest_window_def earliest_window_def)
  next
    case 3
    have lat: "slice_avg xs (0, 30) = Inr (mean_at xs [0..<30])" if "length xs = n" for xs
      using that 3 slice_avg_window [of 0 30 xs 0 30] by simp
    have ear: "slice_avg xs (int n - 30, int n) = Inr (mean_at xs [n - 30..<n])"
      if "length xs = n" for xs
      using that 3 slice_avg_window [of "n - 30" n xs "int n - 30" "int n"] by simp
    from 3 show ?thesis
      unfolding polling_history_change_def history_slices_def Let_def
      by (simp add: h_def [symmetric] t_def [symmetric] n_def [symmetric] len lat ear
          bind_Inr latest_window_def earliest_window_def)
  qed
qed

lemma history_change_frame: "snd (polling_history_change s) = s"
  by (simp add: polling_history_change_def Let_def split: prod.splits)

lemma history_slices_windows:
  assumes "length xs = n"
  shows "getslice xs (fst (fst (history_slices (int n)))) (snd (fst (history_slices (int n))))
           = map ((!) xs) (latest_window n)"
    and "getslice xs (fst (snd (history_slices (int n)))) (snd (snd (history_slices (int n))))
           = map ((!) xs) (earliest_window n)"
proof -
  show "getslice xs (fst (fst (history_slices (int n)))) (snd (fst (history_slices (int n))))
           = map ((!) xs) (latest_window n)"
  proof (cases "60 \<le> n")
    case True
    then show ?thesis
      using assms getslice_nat [of 0 30 xs]
      by (simp add: history_slices_def latest_window_def)
  next
    case False
    then show ?thesis
      using assms getslice_nat [of 0 "n div 2" xs]
      by (simp add: history_slices_def latest_window_def Let_def zdiv_int)
  qed
  show "getslice xs (fst (snd (history_slices (int n)))) (snd (snd (history_slices (int n))))
           = map ((!) xs) (earliest_window n)"
  proof (cases "60 \<le> n")
    case True
    then show ?thesis
      using assms getslice_nat [of "n - 30" n xs]
      by (simp add: history_slices_def earliest_window_def of_nat_diff)
  next
    case False
    then show ?thesis
      using assms getslice_nat [of "n - n div 2" n xs]
      by (simp add: history_slices_def earliest_window_def Let_def zdiv_int of_nat_diff)
  qed
qed

text \<open>
  Claim C1. For a table whose Harris and Trump columns have the same length \<open>n\<close>,
  the slices that \<^verbatim>\<open>polling_history_change\<close> takes are the rows of the windows
  of the specification: rows \<open>0..29\<close> and \<open>n-30..n-1\<close> when \<open>n \<ge> 60\<close>, the
  first and the last \<open>n // 2\<close> rows otherwise. The pair returned is the mean of
  each column over the latest window minus its mean over the earliest window; no
  pair is returned when \<open>n \<le> 1\<close>, where the windows are empty and the division
  raises. With 59 rows both windows have 29 rows, with 60 rows both have 30.
\<close>

theorem polling_history_change_windows:
  assumes "length (Trump_result (data_dict s)) = length (Harris_result (data_dict s))"
  shows "(let h = Harris_result (data_dict s); t = Trump_result (data_dict s);
              n = length h; latest = fst (history_slices (int n));
              earliest = snd (history_slices (int n))
          in getslice h (fst latest) (snd latest) = map ((!) h) (latest_window n)
           \<and> getslice t (fst latest) (snd latest) = map ((!) t) (latest_window n)
           \<and> getslice h (fst earliest) (snd earliest) = map ((!) h) (earliest_window n)
           \<and> getslice t (fst earliest) (snd earliest) = map ((!) t) (earliest_window n)
           \<and> polling_history_change s =
               (if n \<le> 1 then Inl ZeroDivisionError
                else Inr (mean_at h (latest_window n) - mean_at h (earliest_window n),
                          mean_at t (latest_window n) - mean_at t (earliest_window n)), s)
           \<and> (n = 59 \<longrightarrow> length (getslice h (fst latest) (snd latest)) = 29
                          \<and> length (getslice h (fst earliest) (snd earliest)) = 29)
           \<and> (n = 60 \<longrightarrow> length (getslice h (fst latest) (snd latest)) = 30
                          \<and> length (getslice h (fst earliest) (snd earliest)) = 30))"
proof -
  define h where "h = Harris_result (data_dict s)"
  define t where "t = Trump_result (data_dict s)"
  define n where "n = length h"
  have len: "length h = n" "length t = n"
    using assms by (simp_all add: h_def t_def n_def)
  note w = history_slices_windows [OF len(1)] history_slices_windows [OF len(2)]
  have res: "polling_history_change s =
      (if n \<le> 1 then Inl ZeroDivisionError
       else Inr (mean_at h (latest_window n) - mean_at h (earliest_window n),
                 mean_at t (latest_window n) - mean_at t (earliest_window n)), s)"
    using history_change_eq [OF assms] history_change_frame [of s]
    by (simp add: prod_eq_iff Let_def h_def t_def n_def)
  have sz: "length (latest_window 59) = 29" "length (earliest_window 59) = 29"
    "length (latest_window 60) = 30" "length (earliest_window 60) = 30"
    by (simp_all add: latest_window_def earliest_window_def)
  show ?thesis
    unfolding Let_def h_def [symmetric] t_def [symmetric] n_def [symmetric] w res
    by (simp add: sz)
qed

theorem polling_history_change_windows_witness:
  "length (Trump_result (data_dict three_rows)) = length (Harris_result (data_dict three_rows))
   \<and> polling_history_change three_rows = (Inr (1 / 4, 1 / 5), three_rows)"
proof -
  have eq: "length (Trump_result (data_dict three_rows))
      = length (Harris_result (data_dict three_rows))"
    by (simp add: three_rows_def)
  have h: "Harris_result (data_dict three_rows) = [1 / 2, 57 / 100, 1 / 4]"
    and t: "Trump_result (data_dict three_rows) = [1 / 2, 2 / 5, 3 / 10]"
    by (simp_all add: three_rows_def)
  have m: "mean_at [1 / 2, 57 / 100, 1 / 4] (latest_window 3) = 1 / 2"
    "mean_at [1 / 2, 57 / 100, 1 / 4] (earliest_window 3) = 1 / 4"
    "mean_at [1 / 2, 2 / 5, 3 / 10] (latest_window 3) = 1 / 2"
    "mean_at [1 / 2, 2 / 5, 3 / 10] (earliest_window 3) = 3 / 10"
    by (simp_all add: mean_at_def latest_window_def earliest_window_def)
  have l: "length [1 / 2, 57 / 100, 1 / 4 :: rat] = 3"
    by simp
  have "polling_history_change three_rows = (Inr (1 / 2 - 1 / 4, 1 / 2 - 3 / 10), three_rows)"
    using polling_history_change_windows [OF eq] unfolding Let_def h t l m
    by simp
  then show ?thesis using eq by simp
qed

text \<open>
  Claim C3, as stated, fails: on a table of one row the query raises the
  ZeroDivisionError of the division itself, not an InsufficientDataError.
\<close>

theorem polling_history_change_short_counterexample:
  "fst (polling_history_change one_row) = Inl ZeroDivisionError
   \<and> fst (polling_history_change one_row) \<noteq> Inl InsufficientDataError"
  by (simp add: history_change_short one_row_def)

text \<open>
  Claim C3, amended. On every table with at most one row
  \<^verbatim>\<open>polling_history_change\<close> fails at query time with the ZeroDivisionError
  raised by the division for the mean of the empty latest window, and leaves the
  object as it was.
\<close>

theorem polling_history_change_short:
  assumes "length (Harris_result (data_dict s)) \<le> 1"
  shows "polling_history_change s = (Inl ZeroDivisionError, s)"
  using history_change_short [OF assms] history_change_frame [of s]
  by (simp add: prod_eq_iff)

theorem polling_history_change_short_witness:
  "length (Harris_result (data_dict one_row)) \<le> 1
   \<and> polling_history_change one_row = (Inl ZeroDivisionError, one_row)"
  using polling_history_change_short [of one_row] by (simp add: one_row_def)

lemma mean_at_const:
  assumes "w \<noteq> []" and "\<forall>i\<in>set w. xs ! i = c"
  shows "mean_at xs w = c"
proof -
  have "map ((!) xs) w = replicate (length w) c"
    using assms(2) by (simp add: map_replicate_const [symmetric])
  then show ?thesis
    using assms(1) by (simp add: mean_at_def sum_list_replicate)
qed

lemma window_bounds:
  "i \<in> set (latest_window n) \<Longrightarrow> i < n" "i \<in> set (earliest_window n) \<Longrightarrow> i < n"
  by (auto simp: latest_window_def earliest_window_def split: if_splits)

lemma window_nonempty:
  "2 \<le> n \<Longrightarrow> latest_window n \<noteq> []" "2 \<le> n \<Longrightarrow> earliest_window n \<noteq> []"
  by (auto simp: latest_window_def earliest_window_def)

text \<open>
  Claim C9. On a table of at least two rows whose Harris results all equal one
  constant and whose Trump results all equal another, with columns of one length,
  \<^verbatim>\<open>polling_history_change\<close> returns \<open>(0, 0)\<close>.
\<close>

theorem polling_history_change_constant:
  assumes "length (Trump_result (data_dict s)) = length (Harris_result (data_dict s))"
    and "2 \<le> length (Harris_result (data_dict s))"
    and "\<forall>x\<in>set (Harris_result (data_dict s)). x = c_h"
    and "\<forall>x\<in>set (Trump_result (data_dict s)). x = c_t"
  shows "polling_history_change s = (Inr (0, 0), s)"
proof -
  define h where "h = Harris_result (data_dict s)"
  define t where "t = Trump_result (data_dict s)"
  define n where "n = length h"
  have len: "length h = n" "length t = n" and n2: "2 \<le> n"
    using assms(1,2) by (simp_all add: h_def t_def n_def)
  have hc: "mean_at h w = c_h" if "w \<noteq> []" "\<forall>i\<in>set w. i < n" for w
    using that assms(3) len by (intro mean_at_const) (auto simp: h_def)
  have tc: "mean_at t w = c_t" if "w \<noteq> []" "\<forall>i\<in>set w. i < n" for w
    using that assms(4) len by (intro mean_at_const) (auto simp: t_def)
  have "fst (polling_history_change s) = Inr (0, 0)"
    using history_change_eq [OF assms(1)] n2
    by (simp add: Let_def h_def [symmetric] t_def [symmetric] n_def [symmetric]
        hc tc window_bounds window_nonempty)
  then show ?thesis
    using history_change_frame [of s] by (simp add: prod_eq_iff)
qed

theorem polling_history_change_constant_witness:
  "length (Trump_result (data_dict flat_rows)) = length (Harris_result (data_dict flat_rows))
   \<and> 2 \<le> length (Harris_result (data_dict flat_rows))
   \<and> set (Harris_result (data_dict flat_rows)) = {1 / 2}
   \<and> set (Trump_result (data_dict flat_rows)) = {2 / 5}
   \<and> polling_history_change flat_rows = (Inr (0, 0), flat_rows)"
proof -
  have a: "length (Trump_result (data_dict flat_rows))
      = length (Harris_result (data_dict flat_rows))"
    by (simp add: flat_rows_def)
  have b: "2 \<le> length (Harris_result (data_dict flat_rows))"
    by (simp add: flat_rows_def)
  have c: "set (Harris_result (data_dict flat_rows)) = {1 / 2}"
    by (simp add: flat_rows_def)
  have d: "set (Trump_result (data_dict flat_rows)) = {2 / 5}"
    by (simp add: flat_rows_def)
  have c': "\<forall>x\<in>set (Harris_result (data_dict flat_rows)). x = 1 / 2"
    unfolding c by simp
  have d': "\<forall>x\<in>set (Trump_result (data_dict flat_rows)). x = 2 / 5"
    unfolding d by simp
  from a b c d polling_history_change_constant [OF a b c' d'] show ?thesis
    by (intro conjI)
qed

section \<open>highest_polling_candidate: the maxima and the printed string\<close>


lemma highest_frame: "snd (highest_polling_candidate s) = s"
  by (simp add: highest_polling_candidate_def)

















text \<open>
  Claim C6, as stated, fails: on the empty table the query raises the ValueError
  of \<^verbatim>\<open>max\<close>, not an EmptyDataError.
\<close>

theorem highest_polling_candidate_empty_counterexample:
  "fst (highest_polling_candidate (init [])) = Inl ValueError
   \<and> fst (highest_polling_candidate (init [])) \<noteq> Inl EmptyDataError"
  by (simp add: highest_polling_candidate_def init_def empty_table_def bind_Inl)

text \<open>
  Claim C6, amended. On the empty table \<^verbatim>\<open>highest_polling_candidate\<close> fails
  at query time with the ValueError that \<^verbatim>\<open>max\<close> raises on an empty list; it
  returns no default value, and leaves the object as it was.
\<close>

theorem highest_polling_candidate_empty:
  assumes "data_dict s = empty_table"
  shows "highest_polling_candidate s = (Inl ValueError, s)"
  using assms
  by (simp add: highest_polling_candidate_def empty_table_def bind_Inl)

theorem highest_polling_candidate_empty_witness:
  "data_dict (init [''header'']) = empty_table
   \<and> highest_polling_candidate (init [''header'']) = (Inl ValueError, init [''header''])"
proof -
  have a: "data_dict (init [''header'']) = empty_table"
    by (simp add: init_def)
  from a highest_polling_candidate_empty [OF a] show ?thesis
    by (intro conjI)
qed




section \<open>likely_voter_polling_average: the rows selected and the means\<close>

lemma lv_indices_rows: "lv_indices sts = lv_rows sts"
proof (induction sts rule: rev_induct)
  case Nil
  show ?case by (simp add: lv_indices_def lv_rows_def)
next
  case (snoc st sts)
  have "filter (\<lambda>i. (sts @ [st]) ! i = ''LV'') [0..<length sts]
      = filter (\<lambda>i. sts ! i = ''LV'') [0..<length sts]"
    by (rule filter_cong) (simp_all add: nth_append)
  with snoc show ?case
    by (simp add: lv_indices_def lv_rows_def enumerate_append_eq)
qed

lemma lv_rows_bound: "i \<in> set (lv_rows sts) \<Longrightarrow> i < length sts"
  by (simp add: lv_rows_def)

lemma getitems_map:
  "\<forall>i\<in>set is. i < length xs \<Longrightarrow> getitems xs is = Inr (map (\<lambda>i. xs ! i) is)"
  by (induction "is") (simp_all add: getitem_nat bind_Inr)

lemma guarded_avg_eq:
  "guarded_avg vals = Inr (if vals = [] then 0 else sum_list vals / of_nat (length vals))"
  by (simp add: guarded_avg_def truediv_def)

lemma likely_voter_frame: "snd (likely_voter_polling_average s) = s"
  by (simp add: likely_voter_polling_average_def Let_def)

lemma likely_voter_eq:
  assumes "length (Harris_result (data_dict s)) = length (sample_type (data_dict s))"
    and "length (Trump_result (data_dict s)) = length (sample_type (data_dict s))"
  shows "fst (likely_voter_polling_average s) =
     (let lv = lv_rows (sample_type (data_dict s))
      in Inr (if lv = [] then (0, 0)
              else (mean_at (Harris_result (data_dict s)) lv,
                    mean_at (Trump_result (data_dict s)) lv)))"
proof -
  define lv where "lv = lv_rows (sample_type (data_dict s))"
  have h: "getitems (Harris_result (data_dict s)) lv
      = Inr (map (\<lambda>i. Harris_result (data_dict s) ! i) lv)"
    using assms(1) lv_rows_bound by (intro getitems_map) (auto simp: lv_def)
  have t: "getitems (Trump_result (data_dict s)) lv
      = Inr (map (\<lambda>i. Trump_result (data_dict s) ! i) lv)"
    using assms(2) lv_rows_bound by (intro getitems_map) (auto simp: lv_def)
  show ?thesis
    unfolding likely_voter_polling_average_def lv_indices_rows Let_def lv_def [symmetric]
    by (simp add: h t bind_Inr guarded_avg_eq mean_at_def)
qed

lemma sum_list_unit_bounds:
  fixes xs :: "rat list"
  assumes "\<forall>x\<in>set xs. 0 \<le> x \<and> x \<le> 1"
  shows "0 \<le> sum_list xs \<and> sum_list xs \<le> of_nat (length xs)"
  using assms by (induction xs) auto

lemma mean_at_unit_bounds:
  assumes "w \<noteq> []" and "\<forall>i\<in>set w. 0 \<le> xs ! i \<and> xs ! i \<le> 1"
  shows "0 \<le> mean_at xs w \<and> mean_at xs w \<le> 1"
proof -
  have "0 \<le> sum_list (map (\<lambda>i. xs ! i) w)
      \<and> sum_list (map (\<lambda>i. xs ! i) w) \<le> of_nat (length (map (\<lambda>i. xs ! i) w))"
    using assms(2) by (intro sum_list_unit_bounds) auto
  moreover have "0 < (of_nat (length w) :: rat)"
    using assms(1) by simp
  ultimately show ?thesis
    by (simp add: mean_at_def divide_le_eq)
qed

text \<open>
  Claim C5. On a table whose Harris and Trump columns are as long as the column
  of sample types, \<^verbatim>\<open>likely_voter_polling_average\<close> selects exactly the rows
  whose sample type is the string \<^verbatim>\<open>LV\<close>, returns the means of the Harris and
  of the Trump results over these rows, and returns \<open>(0, 0)\<close> when there is no
  such row: it never raises. When every stored result lies between 0 and 1, so do
  both averages.
\<close>

theorem likely_voter_polling_average_lv:
  assumes "length (Harris_result (data_dict s)) = length (sample_type (data_dict s))"
    and "length (Trump_result (data_dict s)) = length (sample_type (data_dict s))"
  shows "(let lv = lv_rows (sample_type (data_dict s));
              h = Harris_result (data_dict s); t = Trump_result (data_dict s)
          in lv_indices (sample_type (data_dict s)) = lv
           \<and> likely_voter_polling_average s =
               (Inr (if lv = [] then (0, 0) else (mean_at h lv, mean_at t lv)), s)
           \<and> ((\<forall>x\<in>set h. 0 \<le> x \<and> x \<le> 1) \<and> (\<forall>x\<in>set t. 0 \<le> x \<and> x \<le> 1) \<longrightarrow>
                (\<exists>a b. likely_voter_polling_average s = (Inr (a, b), s)
                   \<and> 0 \<le> a \<and> a \<le> 1 \<and> 0 \<le> b \<and> b \<le> 1)))"
proof -
  define lv where "lv = lv_rows (sample_type (data_dict s))"
  define h where "h = Harris_result (data_dict s)"
  define t where "t = Trump_result (data_dict s)"
  have res: "likely_voter_polling_average s =
      (Inr (if lv = [] then (0, 0) else (mean_at h lv, mean_at t lv)), s)"
    using likely_voter_eq [OF assms] likely_voter_frame [of s]
    by (simp add: prod_eq_iff Let_def lv_def h_def t_def)
  have bounds: "\<exists>a b. likely_voter_polling_average s = (Inr (a, b), s)
      \<and> 0 \<le> a \<and> a \<le> 1 \<and> 0 \<le> b \<and> b \<le> 1"
    if hb: "\<forall>x\<in>set h. 0 \<le> x \<and> x \<le> 1" and tb: "\<forall>x\<in>set t. 0 \<le> x \<and> x \<le> 1"
  proof (cases "lv = []")
    case True
    then show ?thesis
      using res by simp
  next
    case False
    have "\<forall>i\<in>set lv. 0 \<le> h ! i \<and> h ! i \<le> 1"
      using hb assms(1) lv_rows_bound by (auto simp: lv_def h_def)
    moreover have "\<forall>i\<in>set lv. 0 \<le> t ! i \<and> t ! i \<le> 1"
      using tb assms(2) lv_rows_bound by (auto simp: lv_def t_def)
    ultimately show ?thesis
      using res False mean_at_unit_bounds [of lv h] mean_at_unit_bounds [of lv t] by simp
  qed
  show ?thesis
    unfolding Let_def lv_def [symmetric] h_def [symmetric] t_def [symmetric]
    using res bounds by (simp add: lv_indices_rows lv_def)
qed

theorem likely_voter_polling_average_lv_witness:
  "length (Harris_result (data_dict three_rows)) = length (sample_type (data_dict three_rows))
   \<and> length (Trump_result (data_dict three_rows)) = length (sample_type (data_dict three_rows))
   \<and> sample_type (data_dict three_rows) = [''LV'', ''lv'', ''LV'']
   \<and> lv_indices (sample_type (data_dict three_rows)) = [0, 2]
   \<and> likely_voter_polling_average three_rows = (Inr (3 / 8, 2 / 5), three_rows)"
proof -
  have a: "length (Harris_result (data_dict three_rows))
      = length (sample_type (data_dict three_rows))"
    and b: "length (Trump_result (data_dict three_rows))
      = length (sample_type (data_dict three_rows))"
    and st: "sample_type (data_dict three_rows) = [''LV'', ''lv'', ''LV'']"
    and h: "Harris_result (data_dict three_rows) = [1 / 2, 57 / 100, 1 / 4]"
    and t: "Trump_result (data_dict three_rows) = [1 / 2, 2 / 5, 3 / 10]"
    by (simp_all add: three_rows_def)
  have lv: "lv_rows [''LV'', ''lv'', ''LV''] = [0, 2]"
    by code_simp
  have m: "mean_at [1 / 2, 57 / 100, 1 / 4] [0, 2] = 3 / 8"
    "mean_at [1 / 2, 2 / 5, 3 / 10] [0, 2] = 2 / 5"
    by (simp_all add: mean_at_def)
  have "lv_indices (sample_type (data_dict three_rows)) = [0, 2]
      \<and> likely_voter_polling_average three_rows = (Inr (3 / 8, 2 / 5), three_rows)"
    using likely_voter_polling_average_lv [OF a b] unfolding Let_def st h t lv m
    by simp
  with a b st show ?thesis
    by (intro conjI) simp_all
qed

section \<open>The queries do not change the object\<close>

text \<open>
  Claim C8. Each of the three queries leaves the object, and so all six columns,
  as it found it, whether it returns or raises; hence so does every sequence of
  queries.
\<close>

theorem queries_pure:
  "snd (highest_polling_candidate s) = s
   \<and> snd (likely_voter_polling_average s) = s
   \<and> snd (polling_history_change s) = s
   \<and> snd (run_queries qs s) = s"
proof -
  have q: "snd (run_query q s) = s" for q s
    by (cases q)
      (simp_all add: split_beta highest_frame likely_voter_frame history_change_frame)
  have "snd (run_queries qs s) = s"
  proof (induction qs arbitrary: s)
    case Nil
    show ?case by simp
  next
    case (Cons q qs)
    obtain a s' where r: "run_query q s = (a, s')"
      by (cases "run_query q s")
    then have "s' = s"
      using q [of q s] by simp
    with r Cons [of s] show ?case
      by (auto split: prod.splits)
  qed
  then show ?thesis
    by (simp add: highest_frame likely_voter_frame history_change_frame)
qed

theorem queries_pure_witness:
  "snd (run_queries [HistoryChange, Highest, LikelyVoter, Highest] three_rows) = three_rows
   \<and> data_dict (snd (run_queries [HistoryChange, Highest, LikelyVoter, Highest] three_rows))
       = data_dict three_rows"
  using queries_pure [of three_rows "[HistoryChange, Highest, LikelyVoter, Highest]"]
  by simp

section \<open>build_data_dict: the rows read and the failures\<close>

lemma getitem_last: "getitem xs (- 1) = (if xs = [] then Inl IndexError else Inr (last xs))"
  by (cases "xs = []") (simp_all add: getitem_def Let_def last_conv_nth nat_diff_distrib')

lemma getitem_numeral:
  "getitem xs (numeral k) =
     (if numeral k < length xs then Inr (xs ! numeral k) else Inl IndexError)"
  using getitem_nat [of xs "numeral k"] by simp

lemma getitem_0: "getitem xs 0 = (if xs = [] then Inl IndexError else Inr (xs ! 0))"
  using getitem_nat [of xs 0] by simp

lemma getitem_1: "getitem xs 1 = (if 1 < length xs then Inr (xs ! 1) else Inl IndexError)"
  using getitem_nat [of xs 1] by simp

lemma split_on_nonempty: "split_on c acc s \<noteq> []"
  by (induction s arbitrary: acc) simp_all

lemma parts_nonempty: "map strip (split_comma line) \<noteq> []"
  by (simp add: split_comma_def split_on_nonempty)

lemma convert_cases:
  "convert p s = (case p s of None \<Rightarrow> Inl ValueError | Some v \<Rightarrow> Inr v)"
  by (simp add: convert_def)

lemma parse_row_eq:
  "parse_row pint pfloat line =
     (let parts = map strip (split_comma line); bits = split_space (parts ! 2) in
      if length parts < 2 then Inl IndexError
      else if pint (parts ! 1) = None then Inl ValueError
      else if length parts < 3 then Inl IndexError
      else if bits = [] then Inl IndexError
      else if pint (bits ! 0) = None then Inl ValueError
      else if length parts < 4 then Inl IndexError
      else if pfloat (parts ! 3) = None then Inl ValueError
      else if length parts < 5 then Inl IndexError
      else if pfloat (parts ! 4) = None then Inl ValueError
      else Inr (parts ! 0, the (pint (parts ! 1)), the (pint (bits ! 0)), last bits,
                the (pfloat (parts ! 3)), the (pfloat (parts ! 4))))"
  using parts_nonempty [of line]
  unfolding parse_row_def Let_def getitem_0 getitem_1 getitem_numeral getitem_last convert_cases
  by (auto simp: bind_def split: option.splits)

lemma parse_row_malformed:
  "malformed pint pfloat line \<Longrightarrow>
     parse_row pint pfloat line = Inl IndexError \<or> parse_row pint pfloat line = Inl ValueError"
  unfolding parse_row_eq malformed_def Let_def
  by (auto split: list.splits)

lemma parse_row_wellformed:
  "\<not> malformed pint pfloat line \<Longrightarrow> \<exists>r. parse_row pint pfloat line = Inr r"
  unfolding parse_row_eq malformed_def Let_def
  by (auto split: list.splits)

lemma parse_row_Inr:
  assumes "parse_row pint pfloat line = Inr (m, dt, sz, st, h, t)"
  shows "(let parts = map strip (split_comma line); bits = split_space (parts ! 2) in
          5 \<le> length parts \<and> bits \<noteq> [] \<and> m = parts ! 0 \<and> pint (parts ! 1) = Some dt
          \<and> pint (bits ! 0) = Some sz \<and> st = last bits
          \<and> pfloat (parts ! 3) = Some h \<and> pfloat (parts ! 4) = Some t)"
  using assms unfolding parse_row_eq Let_def
  by (auto split: if_splits)

lemma append_rows_Nil: "append_rows [] d = d"
  by (simp add: append_rows_def)

lemma append_rows_Cons: "append_rows (r # rows) d = append_rows rows (append_row r d)"
  by (simp add: append_rows_def)

lemma data_lines_Cons:
  "data_lines (l # ls) = (if strip l = [] then data_lines ls else strip l # data_lines ls)"
  by (simp add: data_lines_def)

lemma data_lines_Nil: "data_lines [] = []"
  by (simp add: data_lines_def)

lemma build_loop_Inr:
  "build_loop pint pfloat ls d = (Inr (), d') \<Longrightarrow>
     \<exists>rows. map (parse_row pint pfloat) (data_lines ls) = map Inr rows
            \<and> d' = append_rows rows d"
proof (induction ls arbitrary: d)
  case Nil
  then have "map (parse_row pint pfloat) (data_lines []) = map Inr [] \<and> d' = append_rows [] d"
    by (simp add: data_lines_Nil append_rows_Nil)
  then show ?case by blast
next
  case (Cons l ls)
  show ?case
  proof (cases "strip l = []")
    case True
    with Cons show ?thesis
      by (simp add: data_lines_Cons)
  next
    case False
    show ?thesis
    proof (cases "parse_row pint pfloat (strip l)")
      case (Inl e)
      with False Cons.prems show ?thesis
        by (simp add: Let_def)
    next
      case (Inr r)
      with False Cons.prems
      have "build_loop pint pfloat ls (append_row r d) = (Inr (), d')"
        by (simp add: Let_def)
      then obtain rows where
        "map (parse_row pint pfloat) (data_lines ls) = map Inr rows"
        "d' = append_rows rows (append_row r d)"
        using Cons.IH by blast
      then have "map (parse_row pint pfloat) (data_lines (l # ls)) = map Inr (r # rows)
          \<and> d' = append_rows (r # rows) d"
        using False Inr by (simp add: data_lines_Cons append_rows_Cons)
      then show ?thesis by blast
    qed
  qed
qed

lemma build_loop_raises:
  assumes "map (parse_row pint pfloat) (data_lines pre) = map Inr rows"
    and "strip bad \<noteq> []"
    and "parse_row pint pfloat (strip bad) = Inl e"
  shows "build_loop pint pfloat (pre @ bad # post) d = (Inl e, append_rows rows d)"
  using assms(1)
proof (induction pre arbitrary: d rows)
  case Nil
  then show ?case
    using assms(2,3) by (simp add: data_lines_Nil append_rows_Nil Let_def)
next
  case (Cons l pre)
  show ?case
  proof (cases "strip l = []")
    case True
    with Cons show ?thesis
      by (simp add: data_lines_Cons)
  next
    case False
    with Cons.prems obtain r rows' where r: "rows = r # rows'"
      "parse_row pint pfloat (strip l) = Inr r"
      "map (parse_row pint pfloat) (data_lines pre) = map Inr rows'"
      by (cases rows) (auto simp: data_lines_Cons)
    with False Cons.IH [of rows' "append_row r d"] show ?thesis
      by (simp add: Let_def append_rows_Cons)
  qed
qed

lemma rows_before_first_malformed:
  assumes "\<forall>l\<in>set pre. \<not> (strip l \<noteq> [] \<and> malformed pint pfloat (strip l))"
  shows "\<exists>rows. map (parse_row pint pfloat) (data_lines pre) = map Inr rows"
  using assms
proof (induction pre)
  case Nil
  have "map (parse_row pint pfloat) (data_lines []) = map Inr []"
    by (simp add: data_lines_Nil)
  then show ?case by blast
next
  case (Cons l pre)
  then obtain rows where rows: "map (parse_row pint pfloat) (data_lines pre) = map Inr rows"
    by auto
  show ?case
  proof (cases "strip l = []")
    case True
    with rows show ?thesis
      by (auto simp: data_lines_Cons)
  next
    case False
    with Cons.prems have "\<not> malformed pint pfloat (strip l)"
      by simp
    then obtain r where "parse_row pint pfloat (strip l) = Inr r"
      using parse_row_wellformed by blast
    with False rows have "map (parse_row pint pfloat) (data_lines (l # pre)) = map Inr (r # rows)"
      by (simp add: data_lines_Cons)
    then show ?thesis by blast
  qed
qed

lemma append_rows_columns:
  "month (append_rows rows d) = month d @ map fst rows"
  "date (append_rows rows d) = date d @ map (\<lambda>r. fst (snd r)) rows"
  "sample (append_rows rows d) = sample d @ map (\<lambda>r. fst (snd (snd r))) rows"
  "sample_type (append_rows rows d) = sample_type d @ map (\<lambda>r. fst (snd (snd (snd r)))) rows"
  "Harris_result (append_rows rows d)
     = Harris_result d @ map (\<lambda>r. fst (snd (snd (snd (snd r))))) rows"
  "Trump_result (append_rows rows d)
     = Trump_result d @ map (\<lambda>r. snd (snd (snd (snd (snd r))))) rows"
  by (induction rows arbitrary: d;
      simp add: append_rows_Nil append_rows_Cons append_row_def split_beta)+

text \<open>
  Claim C7. When \<^verbatim>\<open>build_data_dict\<close> returns on a freshly constructed object,
  each of the six columns has one entry for each data line of the file (the
  lines after the first that are not blank), and entry \<open>i\<close> of every column is
  the field read from data line \<open>i\<close>: the columns have one length and keep the
  order of the file.
\<close>

theorem build_data_dict_columns:
  assumes "build_data_dict pint pfloat (init lines) = (Inr (), s')"
  shows "(let ls = data_lines (drop 1 lines); d = data_dict s' in
          length (month d) = length ls \<and> length (date d) = length ls
          \<and> length (sample d) = length ls \<and> length (sample_type d) = length ls
          \<and> length (Harris_result d) = length ls \<and> length (Trump_result d) = length ls
          \<and> (\<forall>i<length ls.
                let parts = map strip (split_comma (ls ! i));
                    bits = split_space (parts ! 2)
                in month d ! i = parts ! 0
                 \<and> pint (parts ! 1) = Some (date d ! i)
                 \<and> pint (bits ! 0) = Some (sample d ! i)
                 \<and> sample_type d ! i = last bits
                 \<and> pfloat (parts ! 3) = Some (Harris_result d ! i)
                 \<and> pfloat (parts ! 4) = Some (Trump_result d ! i)))"
proof -
  define ls where "ls = data_lines (drop 1 lines)"
  define d where "d = data_dict s'"
  have "build_loop pint pfloat (drop 1 lines) empty_table = (Inr (), d)"
    using assms by (auto simp: build_data_dict_def init_def d_def split: prod.splits)
  then obtain rows where rows: "map (parse_row pint pfloat) ls = map Inr rows"
    and d: "d = append_rows rows empty_table"
    using build_loop_Inr unfolding ls_def by blast
  have len: "length rows = length ls"
    using rows by (metis length_map)
  have cols: "month d = map fst rows" "date d = map (\<lambda>r. fst (snd r)) rows"
    "sample d = map (\<lambda>r. fst (snd (snd r))) rows"
    "sample_type d = map (\<lambda>r. fst (snd (snd (snd r)))) rows"
    "Harris_result d = map (\<lambda>r. fst (snd (snd (snd (snd r))))) rows"
    "Trump_result d = map (\<lambda>r. snd (snd (snd (snd (snd r))))) rows"
    unfolding d append_rows_columns by (simp_all add: empty_table_def)
  have row: "let parts = map strip (split_comma (ls ! i)); bits = split_space (parts ! 2)
      in month d ! i = parts ! 0
       \<and> pint (parts ! 1) = Some (date d ! i)
       \<and> pint (bits ! 0) = Some (sample d ! i)
       \<and> sample_type d ! i = last bits
       \<and> pfloat (parts ! 3) = Some (Harris_result d ! i)
       \<and> pfloat (parts ! 4) = Some (Trump_result d ! i)" if i: "i < length ls" for i
  proof -
    have "map (parse_row pint pfloat) ls ! i = map Inr rows ! i"
      using rows by simp
    then have p: "parse_row pint pfloat (ls ! i) = Inr (rows ! i)"
      using i len by simp
    obtain m dt sz st h t where r: "rows ! i = (m, dt, sz, st, h, t)"
      by (metis prod_cases3 prod_cases4)
    have ci: "month d ! i = m" "date d ! i = dt" "sample d ! i = sz" "sample_type d ! i = st"
      "Harris_result d ! i = h" "Trump_result d ! i = t"
      using i len r by (simp_all add: cols)
    show ?thesis
      using parse_row_Inr [OF p [unfolded r]]
      unfolding Let_def ci by blast
  qed
  show ?thesis
    unfolding Let_def ls_def [symmetric] d_def [symmetric]
    using row len by (simp add: cols Let_def)
qed

lemma load_two_polls:
  "build_data_dict dec_int dec_float (init two_polls_file)
     = (Inr (), \<lparr>raw_data = two_polls_file, data_dict = two_polls_table\<rparr>)"
  by code_simp

lemma data_lines_two_polls:
  "data_lines (drop 1 two_polls_file)
     = [''October,28,1880 LV,0.49,0.46'', ''October,27, 900 A B RV ,0.5,0.57'']"
  by code_simp

theorem build_data_dict_columns_witness:
  "build_data_dict dec_int dec_float (init two_polls_file)
     = (Inr (), \<lparr>raw_data = two_polls_file, data_dict = two_polls_table\<rparr>)
   \<and> length (data_lines (drop 1 two_polls_file)) = 2
   \<and> length (month two_polls_table) = 2 \<and> length (date two_polls_table) = 2
   \<and> length (sample two_polls_table) = 2 \<and> length (sample_type two_polls_table) = 2
   \<and> length (Harris_result two_polls_table) = 2 \<and> length (Trump_result two_polls_table) = 2"
proof -
  note c = build_data_dict_columns [OF load_two_polls, unfolded Let_def]
  have n: "length (data_lines (drop 1 two_polls_file)) = 2"
    unfolding data_lines_two_polls by simp
  from c have "length (month two_polls_table) = 2" "length (date two_polls_table) = 2"
    "length (sample two_polls_table) = 2" "length (sample_type two_polls_table) = 2"
    "length (Harris_result two_polls_table) = 2" "length (Trump_result two_polls_table) = 2"
    unfolding n by simp_all
  with load_two_polls n show ?thesis
    by (intro conjI)
qed

text \<open>
  Claim C2, as stated, fails in three ways. A line of six fields is read without
  an error, its last field ignored. A line of three fields raises IndexError, not
  a ParseError. And when it is raised, the row of the line before is already in
  the table.
\<close>

theorem build_data_dict_malformed_counterexample:
  "length (split_comma (strip (extra_field_file ! 1))) = 6
   \<and> build_data_dict dec_int dec_float (init extra_field_file)
       = (Inr (), \<lparr>raw_data = extra_field_file, data_dict = first_poll_table\<rparr>)
   \<and> length (split_comma (strip (short_line_file ! 2))) = 3
   \<and> build_data_dict dec_int dec_float (init short_line_file)
       = (Inl IndexError, \<lparr>raw_data = short_line_file, data_dict = first_poll_table\<rparr>)
   \<and> IndexError \<noteq> ParseError
   \<and> first_poll_table \<noteq> empty_table"
proof -
  have "length (split_comma (strip (extra_field_file ! 1))) = 6"
    by code_simp
  moreover have "build_data_dict dec_int dec_float (init extra_field_file)
       = (Inr (), \<lparr>raw_data = extra_field_file, data_dict = first_poll_table\<rparr>)"
    by code_simp
  moreover have "length (split_comma (strip (short_line_file ! 2))) = 3"
    by code_simp
  moreover have "build_data_dict dec_int dec_float (init short_line_file)
       = (Inl IndexError, \<lparr>raw_data = short_line_file, data_dict = first_poll_table\<rparr>)"
    by code_simp
  moreover have "first_poll_table \<noteq> empty_table"
    by (simp add: first_poll_table_def empty_table_def)
  ultimately show ?thesis
    by simp
qed

text \<open>
  Claim C2, amended. When a line after the header is not blank and is malformed
  (fewer than five fields, or a date, sample size, Harris or Trump field that
  does not convert), \<^verbatim>\<open>build_data_dict\<close> raises IndexError or ValueError at
  the first such line. No later line is read, and the rows of the lines before it
  stay appended to the table.
\<close>

theorem build_data_dict_malformed:
  assumes "l \<in> set (drop 1 (raw_data s))" and "strip l \<noteq> []"
    and "malformed pint pfloat (strip l)"
  shows "\<exists>e pre bad post rows.
       drop 1 (raw_data s) = pre @ bad # post
     \<and> map (parse_row pint pfloat) (data_lines pre) = map Inr rows
     \<and> strip bad \<noteq> [] \<and> malformed pint pfloat (strip bad)
     \<and> (e = IndexError \<or> e = ValueError)
     \<and> build_data_dict pint pfloat s
         = (Inl e, s\<lparr>data_dict := append_rows rows (data_dict s)\<rparr>)"
proof -
  let ?P = "\<lambda>l. strip l \<noteq> [] \<and> malformed pint pfloat (strip l)"
  have "\<exists>l\<in>set (drop 1 (raw_data s)). ?P l"
    using assms by blast
  then obtain pre bad post where split: "drop 1 (raw_data s) = pre @ bad # post"
    and bad: "?P bad" and pre: "\<forall>l\<in>set pre. \<not> ?P l"
    using split_list_first_prop [of "drop 1 (raw_data s)" ?P] by blast
  obtain rows where rows: "map (parse_row pint pfloat) (data_lines pre) = map Inr rows"
    using rows_before_first_malformed [OF pre] by blast
  obtain e where e: "e = IndexError \<or> e = ValueError"
    and fail: "parse_row pint pfloat (strip bad) = Inl e"
    using parse_row_malformed bad by blast
  have "build_loop pint pfloat (pre @ bad # post) (data_dict s)
      = (Inl e, append_rows rows (data_dict s))"
    using rows bad fail by (intro build_loop_raises) simp_all
  then have "build_data_dict pint pfloat s
      = (Inl e, s\<lparr>data_dict := append_rows rows (data_dict s)\<rparr>)"
    unfolding build_data_dict_def split by simp
  with split rows bad e show ?thesis
    by blast
qed

theorem build_data_dict_malformed_witness:
  "short_line_file ! 2 \<in> set (drop 1 (raw_data (init short_line_file)))
   \<and> strip (short_line_file ! 2) \<noteq> []
   \<and> malformed dec_int dec_float (strip (short_line_file ! 2))
   \<and> (\<exists>e pre bad post rows.
       drop 1 (raw_data (init short_line_file)) = pre @ bad # post
     \<and> map (parse_row dec_int dec_float) (data_lines pre) = map Inr rows
     \<and> strip bad \<noteq> [] \<and> malformed dec_int dec_float (strip bad)
     \<and> (e = IndexError \<or> e = ValueError)
     \<and> build_data_dict dec_int dec_float (init short_line_file)
         = (Inl e, (init short_line_file)
              \<lparr>data_dict := append_rows rows (data_dict (init short_line_file))\<rparr>))"
proof -
  have a: "short_line_file ! 2 \<in> set (drop 1 (raw_data (init short_line_file)))"
    by (simp add: short_line_file_def init_def)
  have b: "strip (short_line_file ! 2) \<noteq> []"
    by code_simp
  have c: "malformed dec_int dec_float (strip (short_line_file ! 2))"
    by code_simp
  from a b c build_data_dict_malformed [OF a b c] show ?thesis
    by (intro conjI)
qed

end
